theory Spec2Isabelle
  imports Main "HOL-Library.Word"
begin

section \<open>The MFT crawler (scripts/crawler.js): data\<close>

text \<open>
  A JavaScript string is a sequence of UTF-16 code units; \<open>substring\<close>, \<open>length\<close> and
  \<open>===\<close> work on code units.
\<close>

type_synonym jsstring = "16 word list"

definition js :: "string \<Rightarrow> jsstring" where
  "js s = map of_char s"

text \<open>The counter word U+4EF6 used by the summary line, one code unit.\<close>

definition ken :: "16 word" where
  "ken = 0x4EF6"

text \<open>Decimal rendering of a number inside a template literal.\<close>

definition digit :: "nat \<Rightarrow> 16 word" where
  "digit d = of_nat (48 + d)"

fun show_nat :: "nat \<Rightarrow> jsstring" where
  "show_nat n = (if n < 10 then [digit n] else show_nat (n div 10) @ [digit (n mod 10)])"

declare show_nat.simps [simp del]

definition show_int :: "int \<Rightarrow> jsstring" where
  "show_int i = (if i < 0 then js ''-'' @ show_nat (nat (- i)) else show_nat (nat i))"

text \<open>\<open>String.prototype.trim\<close>: strips WhiteSpace and LineTerminator code units at both ends.\<close>

definition js_whitespace :: "16 word \<Rightarrow> bool" where
  "js_whitespace c \<longleftrightarrow>
     c \<in> {0x9, 0xA, 0xB, 0xC, 0xD, 0x20, 0xA0, 0x1680, 0x2028, 0x2029, 0x202F, 0x205F,
          0x3000, 0xFEFF} \<or> (0x2000 \<le> c \<and> c \<le> 0x200A)"

definition js_trim :: "jsstring \<Rightarrow> jsstring" where
  "js_trim s = rev (dropWhile js_whitespace (rev (dropWhile js_whitespace s)))"

text \<open>An entry of \<open>feedsData.feeds\<close> (data/feeds.json). JSON \<open>null\<close> is \<open>None\<close>.\<close>

record feed =
  feed_id :: jsstring
  url :: jsstring
  title :: jsstring
  tags :: "jsstring list"
  selector :: "jsstring option"
  addedAt :: jsstring
  lastChecked :: "jsstring option"
  lastUpdated :: "jsstring option"

text \<open>One element of the array returned by \<open>Diff.diffLines\<close>: its text and its two flags.\<close>

record part =
  part_value :: jsstring
  added :: bool
  removed :: bool

datatype entry_type = Added | Removed

record diff_entry =
  entry_type :: entry_type
  entry_content :: jsstring

text \<open>An element of \<open>historyData.updates\<close> (data/history.json).\<close>

record change_record =
  rec_id :: jsstring
  feedId :: jsstring
  feedTitle :: jsstring
  rec_url :: jsstring
  rec_tags :: "jsstring list"
  detectedAt :: jsstring
  diff :: "diff_entry list"
  diffSummary :: jsstring

record history_doc =
  updates :: "change_record list"

record feeds_doc =
  feeds :: "feed list"
  known_tags :: "jsstring list"

text \<open>
  The libraries the script imports: the MD5 digest of \<open>crypto\<close> and \<open>diffLines\<close> of the
  package \<open>diff\<close>. Neither is part of the repository; the crawler is modelled over any
  digest and any line diff.
\<close>

record 'h libs =
  md5_hex :: "jsstring \<Rightarrow> 'h"
  diffLines :: "jsstring \<Rightarrow> jsstring \<Rightarrow> part list"

text \<open>
  What the outside world delivers to one iteration of the loop: the outcome of the HTTP
  request (the parsed page answers \<open>$('title').text()\<close> and \<open>$(selector).text()\<close>),
  whether reading or writing the snapshot file fails, and the value of \<open>Date.now()\<close>.
  \<open>Fetch_throws\<close> stands for any exception raised inside the \<open>try\<close> block of
  \<open>fetchContent\<close> other than the explicit one for a non-ok status (transport error, timeout).
\<close>

datatype page = Page (title_text: jsstring) (select_text: "jsstring \<Rightarrow> jsstring")

datatype http_outcome = Fetch_throws | Responds bool page

record io_event =
  http :: http_outcome
  read_fails :: bool
  write_fails :: bool
  clock_ms :: int

datatype log_line =
    Log_start
  | Log_crawling jsstring jsstring
  | Log_fetch_error jsstring
  | Log_skip
  | Log_first_snapshot
  | Log_update_detected
  | Log_no_change
  | Log_done nat

datatype error =
    SnapshotWriteError
  | FeedsReadError
  | HistoryReadError
  | FeedsWriteError
  | HistoryWriteError

record fetch_result =
  content :: jsstring
  result_title :: jsstring

text \<open>
  The state the loop works on: the snapshot files (keyed by feed id, the stem of the file
  name under data/snapshots), the in-memory history document, the counter and the console
  output.
\<close>

record crawl_state =
  snapshots :: "jsstring \<rightharpoonup> jsstring"
  historyData :: history_doc
  updatedCount :: nat
  console :: "log_line list"

section \<open>The functions of the script\<close>

text \<open>\<open>fetchContent\<close>: the result, or \<open>None\<close> for \<open>null\<close>, and the lines it logs.\<close>

definition fetchContent ::
  "jsstring \<Rightarrow> jsstring \<Rightarrow> http_outcome \<Rightarrow> fetch_result option \<times> log_line list" where
  "fetchContent u sel outcome =
     (case outcome of
        Fetch_throws \<Rightarrow> (None, [Log_fetch_error u])
      | Responds ok pg \<Rightarrow>
          if \<not> ok then (None, [Log_fetch_error u])
          else
            let t = (if js_trim (title_text pg) \<noteq> [] then js_trim (title_text pg) else u);
                c = js_trim (select_text pg sel)
            in (Some \<lparr>content = c, result_title = t\<rparr>, []))"

definition generateHash :: "'h libs \<Rightarrow> jsstring \<Rightarrow> 'h" where
  "generateHash L c = md5_hex L c"

definition saveSnapshot ::
  "jsstring \<Rightarrow> jsstring \<Rightarrow> bool \<Rightarrow> (jsstring \<rightharpoonup> jsstring) \<Rightarrow> error + (jsstring \<rightharpoonup> jsstring)" where
  "saveSnapshot fid c fails files =
     (if fails then Inl SnapshotWriteError else Inr (files(fid \<mapsto> c)))"

definition loadSnapshot ::
  "jsstring \<Rightarrow> bool \<Rightarrow> (jsstring \<rightharpoonup> jsstring) \<Rightarrow> jsstring option" where
  "loadSnapshot fid fails files = (if fails then None else files fid)"

definition calculateDiff :: "'h libs \<Rightarrow> jsstring \<Rightarrow> jsstring \<Rightarrow> part list" where
  "calculateDiff L oldContent newContent =
     filter (\<lambda>p. added p \<or> removed p) (diffLines L oldContent newContent)"

definition diff_entry_of :: "part \<Rightarrow> diff_entry" where
  "diff_entry_of p =
     \<lparr>entry_type = (if added p then Added else Removed), entry_content = take 500 (part_value p)\<rparr>"

definition summary_of :: "part list \<Rightarrow> jsstring" where
  "summary_of d =
     js ''+'' @ show_nat (length (filter added d)) @ [ken] @ js '' / -''
       @ show_nat (length (filter removed d)) @ [ken]"

definition new_record :: "jsstring \<Rightarrow> int \<Rightarrow> feed \<Rightarrow> part list \<Rightarrow> change_record" where
  "new_record now ms f d =
     \<lparr>rec_id = feed_id f @ js ''-'' @ show_int ms,
      feedId = feed_id f,
      feedTitle = title f,
      rec_url = url f,
      rec_tags = tags f,
      detectedAt = now,
      diff = map diff_entry_of d,
      diffSummary = summary_of d\<rparr>"

definition selector_or_body :: "feed \<Rightarrow> jsstring" where
  "selector_or_body f =
     (case selector f of None \<Rightarrow> js ''body'' | Some s \<Rightarrow> if s = [] then js ''body'' else s)"

text \<open>
  The metadata update of the loop body: \<open>lastChecked\<close> is set, and the title is
  replaced when the fetched one is non-empty and is not the feed's URL.
\<close>

definition update_metadata :: "jsstring \<Rightarrow> fetch_result \<Rightarrow> feed \<Rightarrow> feed" where
  "update_metadata now res f =
     (let f1 = f\<lparr>lastChecked := Some now\<rparr>
      in if result_title res \<noteq> [] \<and> result_title res \<noteq> url f1
         then f1\<lparr>title := result_title res\<rparr> else f1)"

text \<open>
  The body of the \<open>for\<close> loop of \<open>crawl\<close> for one feed. \<open>Inr\<close> is the end of the
  iteration (also through \<open>continue\<close>) with the feed object and the state as mutated;
  \<open>Inl\<close> is an exception leaving the loop, with the state at that point.
\<close>

definition crawl_body ::
  "'h libs \<Rightarrow> jsstring \<Rightarrow> io_event \<Rightarrow> feed \<Rightarrow> crawl_state
     \<Rightarrow> (error \<times> crawl_state) + (feed \<times> crawl_state)" where
  "crawl_body L now ev f st =
     (let st1 = st\<lparr>console := console st @ [Log_crawling (title f) (url f)]\<rparr>;
          (result, logged) = fetchContent (url f) (selector_or_body f) (http ev);
          st2 = st1\<lparr>console := console st1 @ logged\<rparr>
      in case result of
           None \<Rightarrow> Inr (f, st2\<lparr>console := console st2 @ [Log_skip]\<rparr>)
         | Some res \<Rightarrow>
             let previousContent = loadSnapshot (feed_id f) (read_fails ev) (snapshots st2);
                 currentHash = generateHash L (content res);
                 f2 = update_metadata now res f
             in case previousContent of
                  None \<Rightarrow>
                    let st3 = st2\<lparr>console := console st2 @ [Log_first_snapshot]\<rparr>
                    in (case saveSnapshot (feed_id f2) (content res) (write_fails ev) (snapshots st3) of
                          Inl e \<Rightarrow> Inl (e, st3)
                        | Inr files \<Rightarrow> Inr (f2, st3\<lparr>snapshots := files\<rparr>))
                | Some prev \<Rightarrow>
                    if generateHash L prev \<noteq> currentHash then
                      let st3 = st2\<lparr>console := console st2 @ [Log_update_detected]\<rparr>;
                          d = calculateDiff L prev (content res);
                          st4 = st3\<lparr>historyData := (historyData st3)
                                  \<lparr>updates := new_record now (clock_ms ev) f2 d
                                               # updates (historyData st3)\<rparr>\<rparr>
                      in (case saveSnapshot (feed_id f2) (content res) (write_fails ev) (snapshots st4) of
                            Inl e \<Rightarrow> Inl (e, st4)
                          | Inr files \<Rightarrow>
                              Inr (f2\<lparr>lastUpdated := Some now\<rparr>,
                                   st4\<lparr>snapshots := files, updatedCount := Suc (updatedCount st4)\<rparr>))
                    else Inr (f2, st2\<lparr>console := console st2 @ [Log_no_change]\<rparr>))"

text \<open>
  The \<open>for ... of\<close> loop over \<open>feedsData.feeds\<close>; the \<open>i\<close>-th iteration meets the
  event \<open>evs i\<close>. An exception ends the loop at once. The pause of one second that
  ends an iteration changes no state and is left out.
\<close>

fun crawl_loop ::
  "'h libs \<Rightarrow> jsstring \<Rightarrow> (nat \<Rightarrow> io_event) \<Rightarrow> feed list \<Rightarrow> crawl_state
     \<Rightarrow> (error \<times> crawl_state) + (feed list \<times> crawl_state)" where
  "crawl_loop L now evs [] st = Inr ([], st)"
| "crawl_loop L now evs (f # rest) st =
     (case crawl_body L now (evs 0) f st of
        Inl e \<Rightarrow> Inl e
      | Inr (f', st') \<Rightarrow>
          (case crawl_loop L now (\<lambda>i. evs (Suc i)) rest st' of
             Inl e \<Rightarrow> Inl e
           | Inr (rest', st'') \<Rightarrow> Inr (f' # rest', st'')))"

text \<open>
  The files under data/: \<open>None\<close> for a document that cannot be read or parsed. A run
  meets the timestamp \<open>now\<close> taken before the loop, the events of the iterations and the
  outcome of the two final writes.
\<close>

record disk =
  feeds_file :: "feeds_doc option"
  history_file :: "history_doc option"
  snapshot_files :: "jsstring \<rightharpoonup> jsstring"

record run_env =
  now_iso :: jsstring
  events :: "nat \<Rightarrow> io_event"
  feeds_write_fails :: bool
  history_write_fails :: bool

record run_result =
  rejected :: "error option"
  disk_after :: disk
  console_out :: "log_line list"

definition crawl :: "'h libs \<Rightarrow> run_env \<Rightarrow> disk \<Rightarrow> run_result" where
  "crawl L env d =
     (case feeds_file d of
        None \<Rightarrow> \<lparr>rejected = Some FeedsReadError, disk_after = d, console_out = [Log_start]\<rparr>
      | Some feedsData \<Rightarrow>
     (case history_file d of
        None \<Rightarrow> \<lparr>rejected = Some HistoryReadError, disk_after = d, console_out = [Log_start]\<rparr>
      | Some history \<Rightarrow>
     (case crawl_loop L (now_iso env) (events env) (feeds feedsData)
             \<lparr>snapshots = snapshot_files d, historyData = history, updatedCount = 0,
              console = [Log_start]\<rparr> of
        Inl (e, st) \<Rightarrow>
          \<lparr>rejected = Some e, disk_after = d\<lparr>snapshot_files := snapshots st\<rparr>,
           console_out = console st\<rparr>
      | Inr (fs, st) \<Rightarrow>
          let history' = (historyData st)\<lparr>updates := take 100 (updates (historyData st))\<rparr>;
              d1 = d\<lparr>snapshot_files := snapshots st\<rparr>
          in if feeds_write_fails env then
               \<lparr>rejected = Some FeedsWriteError, disk_after = d1, console_out = console st\<rparr>
             else
               let d2 = d1\<lparr>feeds_file := Some (feedsData\<lparr>feeds := fs\<rparr>)\<rparr>
               in if history_write_fails env then
                    \<lparr>rejected = Some HistoryWriteError, disk_after = d2, console_out = console st\<rparr>
                  else
                    \<lparr>rejected = None, disk_after = d2\<lparr>history_file := Some history'\<rparr>,
                     console_out = console st @ [Log_done (updatedCount st)]\<rparr>)))"

section \<open>A line diff for \<open>Diff.diffLines\<close>\<close>

text \<open>
  Modelled from the spec: \<open>Diff.diffLines\<close> (package \<open>diff\<close>, imported by the crawler)
  is not among the sources of the repository. The spec describes it as: old and new text are
  treated as sequences of lines, and the result is an ordered sequence of line-level
  segments classified as unchanged, added or removed by a longest-common-subsequence line
  diff. The pieces: splitting a text at line feeds, an edit script that keeps a longest
  common subsequence of the lines, and the grouping of neighbouring edits of one kind into
  a segment whose text is its lines joined by line feeds.
\<close>

datatype edit_kind = Keep | Ins | Del

fun split_lines :: "jsstring \<Rightarrow> jsstring list" where
  "split_lines [] = [[]]"
| "split_lines (c # cs) =
     (if c = 0xA then [] # split_lines cs
      else (case split_lines cs of [] \<Rightarrow> [[c]] | l # ls \<Rightarrow> (c # l) # ls))"

fun join_lines :: "jsstring list \<Rightarrow> jsstring" where
  "join_lines [] = []"
| "join_lines [l] = l"
| "join_lines (l # ls) = l @ [0xA] @ join_lines ls"

definition kept :: "(edit_kind \<times> 'a) list \<Rightarrow> nat" where
  "kept es = length (filter (\<lambda>e. fst e = Keep) es)"

fun lcs_edits :: "'a list \<Rightarrow> 'a list \<Rightarrow> (edit_kind \<times> 'a) list" where
  "lcs_edits [] ys = map (Pair Ins) ys"
| "lcs_edits (x # xs) [] = map (Pair Del) (x # xs)"
| "lcs_edits (x # xs) (y # ys) =
     (if x = y then (Keep, x) # lcs_edits xs ys
      else
        let a = lcs_edits xs (y # ys); b = lcs_edits (x # xs) ys
        in if kept b \<le> kept a then (Del, x) # a else (Ins, y) # b)"

fun segments :: "(edit_kind \<times> 'a) list \<Rightarrow> (edit_kind \<times> 'a list) list" where
  "segments [] = []"
| "segments ((k, l) # es) =
     (case segments es of
        [] \<Rightarrow> [(k, [l])]
      | (k', ls) # rest \<Rightarrow> if k = k' then (k, l # ls) # rest else (k, [l]) # (k', ls) # rest)"

definition part_of_segment :: "edit_kind \<times> jsstring list \<Rightarrow> part" where
  "part_of_segment s =
     \<lparr>part_value = join_lines (snd s), added = (fst s = Ins), removed = (fst s = Del)\<rparr>"

text \<open>
  Modelled from the spec: the line diff standing for \<open>Diff.diffLines\<close>, which is missing
  from the sources.
\<close>

definition spec_diffLines :: "jsstring \<Rightarrow> jsstring \<Rightarrow> part list" where
  "spec_diffLines oldStr newStr =
     map part_of_segment (segments (lcs_edits (split_lines oldStr) (split_lines newStr)))"

section \<open>Line tokens that keep their terminator\<close>

text \<open>
  Package \<open>diff\<close> is not among the sources of the repository. By its documentation its
  line tokens keep their line terminator, and with the default options, which
  \<open>calculateDiff\<close> uses, a last line without a terminator is not equal to the same line
  followed by one. \<open>tokenize_lines\<close> cuts a text after every line feed (an empty text has
  no token), and \<open>token_diffLines\<close> is the longest-common-subsequence diff over these
  tokens, the text of a segment being its tokens one after the other.
\<close>

fun tokenize_lines :: "jsstring \<Rightarrow> jsstring list" where
  "tokenize_lines [] = []"
| "tokenize_lines (c # cs) =
     (if c = 0xA then [c] # tokenize_lines cs
      else (case tokenize_lines cs of [] \<Rightarrow> [[c]] | l # ls \<Rightarrow> (c # l) # ls))"

definition part_of_tokens :: "edit_kind \<times> jsstring list \<Rightarrow> part" where
  "part_of_tokens s =
     \<lparr>part_value = concat (snd s), added = (fst s = Ins), removed = (fst s = Del)\<rparr>"

definition token_diffLines :: "jsstring \<Rightarrow> jsstring \<Rightarrow> part list" where
  "token_diffLines oldStr newStr =
     map part_of_tokens (segments (lcs_edits (tokenize_lines oldStr) (tokenize_lines newStr)))"

section \<open>A concrete registry entry, page and state\<close>

text \<open>
  The examples use the identity as digest (equal digests exactly for equal texts) and the
  line diff above.
\<close>

definition ex_libs :: "jsstring libs" where
  "ex_libs = \<lparr>md5_hex = (\<lambda>s. s), diffLines = spec_diffLines\<rparr>"

definition ex_now :: jsstring where
  "ex_now = js ''2026-01-19T00:00:00.000Z''"

definition ex_feed :: feed where
  "ex_feed = \<lparr>feed_id = js ''blog'', url = js ''https://example.com'', title = js ''Example'',
     tags = [js ''tech''], selector = Some (js ''article''),
     addedAt = js ''2026-01-01T00:00:00.000Z'', lastChecked = None, lastUpdated = None\<rparr>"

definition ex_page :: "jsstring \<Rightarrow> page" where
  "ex_page t = Page t (\<lambda>sel. if sel = js ''article'' then js ''Hello\<newline>World\<newline>Foo'' else [])"

definition ex_event :: io_event where
  "ex_event = \<lparr>http = Responds True (ex_page (js ''Example'')), read_fails = False,
     write_fails = False, clock_ms = 1768780800000\<rparr>"

definition ex_state :: "(jsstring \<rightharpoonup> jsstring) \<Rightarrow> crawl_state" where
  "ex_state files = \<lparr>snapshots = files, historyData = \<lparr>updates = []\<rparr>, updatedCount = 0,
     console = [Log_start]\<rparr>"

definition ex_result :: fetch_result where
  "ex_result = \<lparr>content = js ''Hello\<newline>World\<newline>Foo'', result_title = js ''Example''\<rparr>"

definition ex_feed2 :: feed where
  "ex_feed2 = ex_feed\<lparr>feed_id := js ''news'', url := js ''https://example.org'', title := js ''News''\<rparr>"

definition ex_events :: "http_outcome \<Rightarrow> bool \<Rightarrow> bool \<Rightarrow> nat \<Rightarrow> io_event" where
  "ex_events h rfail wfail i = (if i = 0 then ex_event\<lparr>http := h, read_fails := rfail, write_fails := wfail\<rparr>
                          else ex_event\<lparr>clock_ms := 1768780801500\<rparr>)"

definition ex_disk :: "history_doc \<Rightarrow> (jsstring \<rightharpoonup> jsstring) \<Rightarrow> disk" where
  "ex_disk h files = \<lparr>feeds_file = Some \<lparr>feeds = [ex_feed, ex_feed2], known_tags = [js ''tech'']\<rparr>,
     history_file = Some h, snapshot_files = files\<rparr>"

definition ex_env :: "(nat \<Rightarrow> io_event) \<Rightarrow> run_env" where
  "ex_env evs = \<lparr>now_iso = ex_now, events = evs, feeds_write_fails = False,
     history_write_fails = False\<rparr>"

definition ex_old_record :: "nat \<Rightarrow> change_record" where
  "ex_old_record i = \<lparr>rec_id = js ''blog-'' @ show_nat i, feedId = js ''blog'',
     feedTitle = js ''Example'', rec_url = js ''https://example.com'', rec_tags = [js ''tech''],
     detectedAt = js ''2025-12-01T00:00:00.000Z'', diff = [], diffSummary = []\<rparr>"

definition ex_full_history :: history_doc where
  "ex_full_history = \<lparr>updates = map ex_old_record [0..<100]\<rparr>"

definition ex_event_retitled :: io_event where
  "ex_event_retitled = ex_event\<lparr>http := Responds True (ex_page (js ''Renamed''))\<rparr>"

definition ex_token_libs :: "jsstring libs" where
  "ex_token_libs = \<lparr>md5_hex = (\<lambda>s. s), diffLines = token_diffLines\<rparr>"

section \<open>The branches of the loop body\<close>

lemma fetchContent_fails:
  assumes "outcome = Fetch_throws \<or> (\<exists>pg. outcome = Responds False pg)"
  shows "fetchContent u sel outcome = (None, [Log_fetch_error u])"
  using assms by (auto simp: fetchContent_def)

lemma fetchContent_logs:
  assumes "fetchContent u sel outcome = (Some res, lg)"
  shows "lg = []"
  using assms by (auto simp: fetchContent_def Let_def split: http_outcome.splits if_splits)

lemma crawl_body_skip:
  assumes "fetchContent (url f) (selector_or_body f) (http ev) = (None, lg)"
  shows "crawl_body L now ev f st =
     Inr (f, st\<lparr>console := console st @ Log_crawling (title f) (url f) # lg @ [Log_skip]\<rparr>)"
  using assms by (simp add: crawl_body_def)

lemma crawl_body_first:
  assumes "fetchContent (url f) (selector_or_body f) (http ev) = (Some res, lg)"
    and "loadSnapshot (feed_id f) (read_fails ev) (snapshots st) = None"
    and "\<not> write_fails ev"
  shows "crawl_body L now ev f st =
     Inr (update_metadata now res f,
          st\<lparr>console := console st @ [Log_crawling (title f) (url f), Log_first_snapshot],
             snapshots := (snapshots st)(feed_id f \<mapsto> content res)\<rparr>)"
  using assms fetchContent_logs [OF assms(1)]
  by (simp add: crawl_body_def saveSnapshot_def update_metadata_def Let_def)

lemma crawl_body_changed:
  assumes "fetchContent (url f) (selector_or_body f) (http ev) = (Some res, lg)"
    and "loadSnapshot (feed_id f) (read_fails ev) (snapshots st) = Some prev"
    and "generateHash L prev \<noteq> generateHash L (content res)"
    and "\<not> write_fails ev"
  shows "crawl_body L now ev f st =
     Inr ((update_metadata now res f)\<lparr>lastUpdated := Some now\<rparr>,
          st\<lparr>console := console st @ [Log_crawling (title f) (url f), Log_update_detected],
             historyData := (historyData st)
               \<lparr>updates := new_record now (clock_ms ev) (update_metadata now res f)
                               (calculateDiff L prev (content res))
                            # updates (historyData st)\<rparr>,
             snapshots := (snapshots st)(feed_id f \<mapsto> content res),
             updatedCount := Suc (updatedCount st)\<rparr>)"
  using assms fetchContent_logs [OF assms(1)]
  by (simp add: crawl_body_def saveSnapshot_def update_metadata_def Let_def)

lemma crawl_body_unchanged:
  assumes "fetchContent (url f) (selector_or_body f) (http ev) = (Some res, lg)"
    and "loadSnapshot (feed_id f) (read_fails ev) (snapshots st) = Some prev"
    and "generateHash L prev = generateHash L (content res)"
  shows "crawl_body L now ev f st =
     Inr (update_metadata now res f,
          st\<lparr>console := console st @ [Log_crawling (title f) (url f), Log_no_change]\<rparr>)"
  using assms fetchContent_logs [OF assms(1)]
  by (simp add: crawl_body_def Let_def)

lemma crawl_body_write_fails:
  assumes "fetchContent (url f) (selector_or_body f) (http ev) = (Some res, lg)"
    and "loadSnapshot (feed_id f) (read_fails ev) (snapshots st) = None
         \<or> (\<exists>prev. loadSnapshot (feed_id f) (read_fails ev) (snapshots st) = Some prev
               \<and> generateHash L prev \<noteq> generateHash L (content res))"
    and "write_fails ev"
  shows "\<exists>st'. crawl_body L now ev f st = Inl (SnapshotWriteError, st')
           \<and> snapshots st' = snapshots st"
  using assms fetchContent_logs [OF assms(1)]
  by (auto simp add: crawl_body_def saveSnapshot_def Let_def)

lemma update_metadata_fields:
  "feed_id (update_metadata now res f) = feed_id f"
  "url (update_metadata now res f) = url f"
  "tags (update_metadata now res f) = tags f"
  "selector (update_metadata now res f) = selector f"
  "addedAt (update_metadata now res f) = addedAt f"
  "lastUpdated (update_metadata now res f) = lastUpdated f"
  "lastChecked (update_metadata now res f) = Some now"
  by (simp_all add: update_metadata_def Let_def)

lemma ex_fetch:
  "fetchContent (url ex_feed) (selector_or_body ex_feed) (http ex_event) = (Some ex_result, [])"
  by (simp add: fetchContent_def ex_feed_def selector_or_body_def ex_event_def ex_page_def
      ex_result_def js_trim_def js_def js_whitespace_def)

section \<open>The loop and the history\<close>

lemma crawl_body_history:
  assumes "crawl_body L now ev f st = Inr (f', st')"
  shows "(updates (historyData st') = updates (historyData st)
            \<and> updatedCount st' = updatedCount st)
         \<or> (\<exists>r. updates (historyData st') = r # updates (historyData st)
               \<and> updatedCount st' = Suc (updatedCount st)
               \<and> detectedAt r = now \<and> feedId r = feed_id f
               \<and> rec_id r = feed_id f @ js ''-'' @ show_int (clock_ms ev))"
  using assms
  by (auto simp: crawl_body_def Let_def new_record_def update_metadata_fields
           split: prod.splits option.splits sum.splits if_splits)

lemma crawl_loop_length:
  "crawl_loop L now evs fs st = Inr (fs', st') \<Longrightarrow> length fs' = length fs"
  by (induction fs arbitrary: evs st fs' st') (auto split: sum.splits prod.splits)

lemma crawl_loop_history:
  assumes "crawl_loop L now evs fs st = Inr (fs', st')"
  shows "\<exists>new is. updates (historyData st') = new @ updates (historyData st)
           \<and> updatedCount st' = updatedCount st + length new
           \<and> sorted_wrt (>) is
           \<and> list_all2 (\<lambda>r i. i < length fs \<and> detectedAt r = now
                  \<and> feedId r = feed_id (fs ! i)
                  \<and> rec_id r = feed_id (fs ! i) @ js ''-'' @ show_int (clock_ms (evs i))) new is"
  using assms
proof (induction fs arbitrary: evs st fs' st')
  case Nil
  then show ?case by simp
next
  case (Cons f rest)
  from Cons.prems obtain f1 st1 rest' where
    body: "crawl_body L now (evs 0) f st = Inr (f1, st1)" and
    loop: "crawl_loop L now (\<lambda>i. evs (Suc i)) rest st1 = Inr (rest', st')"
    by (auto split: sum.splits prod.splits)
  from Cons.IH [OF loop] obtain new "is" where
    n1: "updates (historyData st') = new @ updates (historyData st1)" and
    n2: "updatedCount st' = updatedCount st1 + length new" and
    n3: "sorted_wrt (>) is" and
    n4: "list_all2 (\<lambda>r i. i < length rest \<and> detectedAt r = now
                  \<and> feedId r = feed_id (rest ! i)
                  \<and> rec_id r = feed_id (rest ! i) @ js ''-'' @ show_int (clock_ms (evs (Suc i)))) new is"
    by blast
  let ?P = "\<lambda>r i. i < length (f # rest) \<and> detectedAt r = now
                  \<and> feedId r = feed_id ((f # rest) ! i)
                  \<and> rec_id r = feed_id ((f # rest) ! i) @ js ''-'' @ show_int (clock_ms (evs i))"
  have n4': "list_all2 ?P new (map Suc is)"
    using n4 by (simp add: list_all2_map2) 
  have n3': "sorted_wrt (>) (map Suc is)"
    using n3 by (simp add: sorted_wrt_map)
  from crawl_body_history [OF body] show ?case
  proof
    assume "updates (historyData st1) = updates (historyData st) \<and> updatedCount st1 = updatedCount st"
    with n1 n2 n3' n4' show ?thesis
      by (intro exI [of _ new] exI [of _ "map Suc is"]) simp
  next
    assume "\<exists>r. updates (historyData st1) = r # updates (historyData st)
               \<and> updatedCount st1 = Suc (updatedCount st)
               \<and> detectedAt r = now \<and> feedId r = feed_id f
               \<and> rec_id r = feed_id f @ js ''-'' @ show_int (clock_ms (evs 0))"
    then obtain r where r: "updates (historyData st1) = r # updates (historyData st)"
      "updatedCount st1 = Suc (updatedCount st)" "detectedAt r = now" "feedId r = feed_id f"
      "rec_id r = feed_id f @ js ''-'' @ show_int (clock_ms (evs 0))" by blast
    have a: "updates (historyData st') = (new @ [r]) @ updates (historyData st)"
      using n1 r(1) by simp
    have b: "updatedCount st' = updatedCount st + length (new @ [r])"
      using n2 r(2) by simp
    have c: "sorted_wrt (>) (map Suc is @ [0])"
      using n3' by (auto simp: sorted_wrt_append)
    have d: "list_all2 ?P (new @ [r]) (map Suc is @ [0])"
      using n4' r(3-5) by (auto intro!: list_all2_appendI)
    from a b c d show ?thesis
      by (intro exI [of _ "new @ [r]"] exI [of _ "map Suc is @ [0]"]) simp
  qed
qed

lemma lcs_edits_same: "lcs_edits xs xs = map (Pair Keep) xs"
  by (induction xs) auto

lemma segments_kinds: "fst ` set (segments es) \<subseteq> fst ` set es"
proof (induction es rule: segments.induct)
  case 1
  then show ?case by simp
next
  case (2 k l es)
  then show ?case by (auto split: list.splits if_splits) (force+)?
qed

lemma spec_diffLines_same:
  "p \<in> set (spec_diffLines a a) \<Longrightarrow> \<not> added p \<and> \<not> removed p"
proof -
  assume "p \<in> set (spec_diffLines a a)"
  then obtain s where s: "s \<in> set (segments (map (Pair Keep) (split_lines a)))"
    and p: "p = part_of_segment s"
    by (auto simp: spec_diffLines_def lcs_edits_same)
  from s segments_kinds [of "map (Pair Keep) (split_lines a)"] have "fst s = Keep"
    by auto
  with p show ?thesis by (simp add: part_of_segment_def)
qed

lemmas ex_defs = ex_feed2_def ex_events_def ex_disk_def ex_env_def ex_feed_def ex_event_def
  ex_page_def ex_state_def ex_libs_def

lemmas model_defs = crawl_def crawl_body_def fetchContent_def loadSnapshot_def saveSnapshot_def
  generateHash_def update_metadata_def selector_or_body_def js_trim_def js_whitespace_def
  calculateDiff_def new_record_def Let_def

lemma crawl_body_returns:
  assumes "\<not> write_fails ev"
  shows "\<exists>f' st'. crawl_body L now ev f st = Inr (f', st')"
  using assms
  by (auto simp: crawl_body_def saveSnapshot_def Let_def split: prod.splits option.splits)

lemma crawl_loop_returns:
  assumes "\<forall>i<length fs. \<not> write_fails (evs i)"
  shows "\<exists>fs' st'. crawl_loop L now evs fs st = Inr (fs', st')"
  using assms
proof (induction fs arbitrary: evs st)
  case Nil
  then show ?case by simp
next
  case (Cons f rest)
  from Cons.prems have "\<not> write_fails (evs 0)" by auto
  from crawl_body_returns [OF this] obtain f1 st1 where
    b: "crawl_body L now (evs 0) f st = Inr (f1, st1)" by blast
  from Cons.prems have "\<forall>i<length rest. \<not> write_fails (evs (Suc i))" by auto
  from Cons.IH [of "\<lambda>i. evs (Suc i)" st1, OF this] obtain rest' st' where
    "crawl_loop L now (\<lambda>i. evs (Suc i)) rest st1 = Inr (rest', st')" by blast
  with b show ?case by simp
qed

lemma crawl_rejects:
  assumes "feeds_file d = Some fd" and "history_file d = Some h"
    and "crawl_loop L (now_iso env) (events env) (feeds fd)
           \<lparr>snapshots = snapshot_files d, historyData = h, updatedCount = 0,
            console = [Log_start]\<rparr> = Inl (e, st')"
  shows "crawl L env d =
           \<lparr>rejected = Some e, disk_after = d\<lparr>snapshot_files := snapshots st'\<rparr>,
            console_out = console st'\<rparr>"
  using assms by (simp add: crawl_def)

lemma filter_flags:
  "filter added (filter (\<lambda>p. added p \<or> removed p) xs) = filter added xs"
  "filter removed (filter (\<lambda>p. added p \<or> removed p) xs) = filter removed xs"
  by (induction xs) auto

lemma summary_of_calculateDiff:
  "summary_of (calculateDiff L a b) =
     js ''+'' @ show_nat (length (filter added (diffLines L a b))) @ [ken] @ js '' / -''
       @ show_nat (length (filter removed (diffLines L a b))) @ [ken]"
  unfolding summary_of_def calculateDiff_def filter_flags ..

lemma list_all2_setD:
  assumes "list_all2 P xs ys" and "x \<in> set xs"
  shows "\<exists>y\<in>set ys. P x y"
  using assms by (induction rule: list_all2_induct) auto

section \<open>Properties of a crawl pass\<close>

text \<open>
  C1. A source whose fetched text hashes differently from its stored snapshot: the
  iteration of the pass for that source (the snapshot write succeeding) puts exactly one
  new ChangeRecord of that source at the front of the history, overwrites the snapshot with
  the new text and sets \<open>lastUpdated\<close> to the timestamp of the run. The loop runs the
  body once for each source.
\<close>

theorem changed_source_recorded:
  assumes "fetchContent (url f) (selector_or_body f) (http ev) = (Some res, lg)"
    and "loadSnapshot (feed_id f) (read_fails ev) (snapshots st) = Some prev"
    and "generateHash L prev \<noteq> generateHash L (content res)"
    and "\<not> write_fails ev"
  shows "\<exists>f' st' r. crawl_body L now ev f st = Inr (f', st')
           \<and> updates (historyData st') = r # updates (historyData st)
           \<and> updatedCount st' = Suc (updatedCount st)
           \<and> feedId r = feed_id f
           \<and> snapshots st' = (snapshots st)(feed_id f \<mapsto> content res)
           \<and> lastUpdated f' = Some now"
  by (simp add: crawl_body_changed [OF assms] new_record_def update_metadata_fields)

theorem changed_source_recorded_witness:
  "fetchContent (url ex_feed) (selector_or_body ex_feed) (http ex_event) = (Some ex_result, [])
   \<and> loadSnapshot (feed_id ex_feed) (read_fails ex_event)
        (snapshots (ex_state [js ''blog'' \<mapsto> js ''Hello\<newline>World''])) = Some (js ''Hello\<newline>World'')
   \<and> generateHash ex_libs (js ''Hello\<newline>World'') \<noteq> generateHash ex_libs (content ex_result)
   \<and> \<not> write_fails ex_event
   \<and> (\<exists>f' st' r. crawl_body ex_libs ex_now ex_event ex_feed
                     (ex_state [js ''blog'' \<mapsto> js ''Hello\<newline>World'']) = Inr (f', st')
           \<and> updates (historyData st') = [r]
           \<and> updatedCount st' = 1
           \<and> feedId r = js ''blog''
           \<and> snapshots st' = [js ''blog'' \<mapsto> js ''Hello\<newline>World\<newline>Foo'']
           \<and> lastUpdated f' = Some ex_now)"
proof -
  let ?st = "ex_state [js ''blog'' \<mapsto> js ''Hello\<newline>World'']"
  have h1: "fetchContent (url ex_feed) (selector_or_body ex_feed) (http ex_event) = (Some ex_result, [])"
    by (rule ex_fetch)
  have h2: "loadSnapshot (feed_id ex_feed) (read_fails ex_event) (snapshots ?st)
              = Some (js ''Hello\<newline>World'')"
    by (simp add: loadSnapshot_def ex_feed_def ex_event_def ex_state_def)
  have h3: "generateHash ex_libs (js ''Hello\<newline>World'') \<noteq> generateHash ex_libs (content ex_result)"
    by (simp add: generateHash_def ex_libs_def ex_result_def js_def)
  have h4: "\<not> write_fails ex_event"
    by (simp add: ex_event_def)
  have c: "\<exists>f' st' r. crawl_body ex_libs ex_now ex_event ex_feed ?st = Inr (f', st')
           \<and> updates (historyData st') = r # updates (historyData ?st)
           \<and> updatedCount st' = Suc (updatedCount ?st)
           \<and> feedId r = feed_id ex_feed
           \<and> snapshots st' = (snapshots ?st)(feed_id ex_feed \<mapsto> content ex_result)
           \<and> lastUpdated f' = Some ex_now"
    by (rule changed_source_recorded [OF h1 h2 h3 h4])
  from c have c': "\<exists>f' st' r. crawl_body ex_libs ex_now ex_event ex_feed ?st = Inr (f', st')
           \<and> updates (historyData st') = [r]
           \<and> updatedCount st' = 1
           \<and> feedId r = js ''blog''
           \<and> snapshots st' = [js ''blog'' \<mapsto> js ''Hello\<newline>World\<newline>Foo'']
           \<and> lastUpdated f' = Some ex_now"
    by (simp add: ex_state_def ex_feed_def ex_result_def)
  from h1 h2 h3 h4 c' show ?thesis by blast
qed

text \<open>
  C3. A source with no prior snapshot (\<open>loadSnapshot\<close> gives \<open>null\<close>) whose fetch
  succeeds: the iteration (the snapshot write succeeding) stores the fetched text as the
  snapshot of the source, leaves the history and the counter as they were, so no
  ChangeRecord is emitted, and does not touch \<open>lastUpdated\<close>.
\<close>

theorem first_seen_snapshot_only:
  assumes "fetchContent (url f) (selector_or_body f) (http ev) = (Some res, lg)"
    and "loadSnapshot (feed_id f) (read_fails ev) (snapshots st) = None"
    and "\<not> write_fails ev"
  shows "\<exists>f' st'. crawl_body L now ev f st = Inr (f', st')
           \<and> snapshots st' = (snapshots st)(feed_id f \<mapsto> content res)
           \<and> historyData st' = historyData st
           \<and> updatedCount st' = updatedCount st
           \<and> lastUpdated f' = lastUpdated f"
  by (simp add: crawl_body_first [OF assms] update_metadata_fields)

theorem first_seen_snapshot_only_witness:
  "fetchContent (url ex_feed) (selector_or_body ex_feed) (http ex_event) = (Some ex_result, [])
   \<and> loadSnapshot (feed_id ex_feed) (read_fails ex_event) (snapshots (ex_state Map.empty)) = None
   \<and> \<not> write_fails ex_event
   \<and> (\<exists>f' st'. crawl_body ex_libs ex_now ex_event ex_feed (ex_state Map.empty) = Inr (f', st')
           \<and> snapshots st' = [js ''blog'' \<mapsto> js ''Hello\<newline>World\<newline>Foo'']
           \<and> historyData st' = \<lparr>updates = []\<rparr>
           \<and> updatedCount st' = 0
           \<and> lastUpdated f' = None)"
proof -
  have h1: "fetchContent (url ex_feed) (selector_or_body ex_feed) (http ex_event) = (Some ex_result, [])"
    by (rule ex_fetch)
  have h2: "loadSnapshot (feed_id ex_feed) (read_fails ex_event) (snapshots (ex_state Map.empty)) = None"
    by (simp add: loadSnapshot_def ex_event_def ex_state_def)
  have h3: "\<not> write_fails ex_event"
    by (simp add: ex_event_def)
  from first_seen_snapshot_only [OF h1 h2 h3, of ex_libs ex_now]
  have "\<exists>f' st'. crawl_body ex_libs ex_now ex_event ex_feed (ex_state Map.empty) = Inr (f', st')
           \<and> snapshots st' = [js ''blog'' \<mapsto> js ''Hello\<newline>World\<newline>Foo'']
           \<and> historyData st' = \<lparr>updates = []\<rparr>
           \<and> updatedCount st' = 0
           \<and> lastUpdated f' = None"
    by (simp add: ex_state_def ex_feed_def ex_result_def)
  with h1 h2 h3 show ?thesis by blast
qed

text \<open>
  C4. A source whose fetched text has the same digest as its stored snapshot: the iteration
  adds no ChangeRecord, leaves \<open>lastUpdated\<close> and the snapshot files as they were and
  sets \<open>lastChecked\<close> to the timestamp of the run.
\<close>

theorem unchanged_source_checked_only:
  assumes "fetchContent (url f) (selector_or_body f) (http ev) = (Some res, lg)"
    and "loadSnapshot (feed_id f) (read_fails ev) (snapshots st) = Some prev"
    and "generateHash L prev = generateHash L (content res)"
  shows "\<exists>f' st'. crawl_body L now ev f st = Inr (f', st')
           \<and> historyData st' = historyData st
           \<and> updatedCount st' = updatedCount st
           \<and> lastUpdated f' = lastUpdated f
           \<and> snapshots st' = snapshots st
           \<and> lastChecked f' = Some now"
  by (simp add: crawl_body_unchanged [OF assms] update_metadata_fields)

theorem unchanged_source_checked_only_witness:
  "fetchContent (url ex_feed) (selector_or_body ex_feed) (http ex_event) = (Some ex_result, [])
   \<and> loadSnapshot (feed_id ex_feed) (read_fails ex_event)
        (snapshots (ex_state [js ''blog'' \<mapsto> js ''Hello\<newline>World\<newline>Foo'']))
       = Some (js ''Hello\<newline>World\<newline>Foo'')
   \<and> generateHash ex_libs (js ''Hello\<newline>World\<newline>Foo'') = generateHash ex_libs (content ex_result)
   \<and> (\<exists>f' st'. crawl_body ex_libs ex_now ex_event ex_feed
                   (ex_state [js ''blog'' \<mapsto> js ''Hello\<newline>World\<newline>Foo'']) = Inr (f', st')
           \<and> historyData st' = \<lparr>updates = []\<rparr>
           \<and> updatedCount st' = 0
           \<and> lastUpdated f' = None
           \<and> snapshots st' = [js ''blog'' \<mapsto> js ''Hello\<newline>World\<newline>Foo'']
           \<and> lastChecked f' = Some ex_now)"
proof -
  let ?st = "ex_state [js ''blog'' \<mapsto> js ''Hello\<newline>World\<newline>Foo'']"
  have h1: "fetchContent (url ex_feed) (selector_or_body ex_feed) (http ex_event) = (Some ex_result, [])"
    by (rule ex_fetch)
  have h2: "loadSnapshot (feed_id ex_feed) (read_fails ex_event) (snapshots ?st)
              = Some (js ''Hello\<newline>World\<newline>Foo'')"
    by (simp add: loadSnapshot_def ex_feed_def ex_event_def ex_state_def)
  have h3: "generateHash ex_libs (js ''Hello\<newline>World\<newline>Foo'') = generateHash ex_libs (content ex_result)"
    by (simp add: generateHash_def ex_libs_def ex_result_def)
  from unchanged_source_checked_only [OF h1 h2 h3, of ex_now]
  have "\<exists>f' st'. crawl_body ex_libs ex_now ex_event ex_feed ?st = Inr (f', st')
           \<and> historyData st' = \<lparr>updates = []\<rparr>
           \<and> updatedCount st' = 0
           \<and> lastUpdated f' = None
           \<and> snapshots st' = [js ''blog'' \<mapsto> js ''Hello\<newline>World\<newline>Foo'']
           \<and> lastChecked f' = Some ex_now"
    by (simp add: ex_state_def ex_feed_def)
  with h1 h2 h3 show ?thesis by blast
qed

text \<open>
  C5, as stated: in the unchanged case no field of the source other than
  \<open>lastChecked\<close>, the title included, is modified. The metadata update runs before the
  change detection, in every case of a successful fetch: a page whose title is
  \<open>Renamed\<close> and whose text equals the snapshot changes the title of the source.
\<close>

theorem unchanged_title_counterexample:
  "loadSnapshot (feed_id ex_feed) (read_fails ex_event_retitled)
        (snapshots (ex_state [js ''blog'' \<mapsto> js ''Hello\<newline>World\<newline>Foo'']))
       = Some (js ''Hello\<newline>World\<newline>Foo'')
   \<and> fetchContent (url ex_feed) (selector_or_body ex_feed) (http ex_event_retitled)
       = (Some \<lparr>content = js ''Hello\<newline>World\<newline>Foo'', result_title = js ''Renamed''\<rparr>, [])
   \<and> generateHash ex_libs (js ''Hello\<newline>World\<newline>Foo'')
       = generateHash ex_libs (js ''Hello\<newline>World\<newline>Foo'')
   \<and> crawl_body ex_libs ex_now ex_event_retitled ex_feed
        (ex_state [js ''blog'' \<mapsto> js ''Hello\<newline>World\<newline>Foo''])
       = Inr (ex_feed\<lparr>lastChecked := Some ex_now, title := js ''Renamed''\<rparr>,
              (ex_state [js ''blog'' \<mapsto> js ''Hello\<newline>World\<newline>Foo''])
                \<lparr>console := [Log_start, Log_crawling (js ''Example'') (js ''https://example.com''),
                              Log_no_change]\<rparr>)
   \<and> title (ex_feed\<lparr>lastChecked := Some ex_now, title := js ''Renamed''\<rparr>) \<noteq> title ex_feed"
  by (simp add: crawl_body_def fetchContent_def loadSnapshot_def generateHash_def
      update_metadata_def selector_or_body_def ex_event_retitled_def ex_event_def ex_page_def
      ex_feed_def ex_state_def ex_libs_def js_trim_def js_whitespace_def js_def Let_def)

text \<open>
  C5, amended: in the unchanged case the snapshot files, the history and the counter are
  left as they were (the console gets two lines), and the source keeps every field except
  \<open>lastChecked\<close>, set to the timestamp of the run, and \<open>title\<close>, replaced by the
  fetched title exactly when that one is non-empty and is not the URL of the source.
\<close>

theorem unchanged_source_metadata:
  assumes "fetchContent (url f) (selector_or_body f) (http ev) = (Some res, lg)"
    and "loadSnapshot (feed_id f) (read_fails ev) (snapshots st) = Some prev"
    and "generateHash L prev = generateHash L (content res)"
  shows "crawl_body L now ev f st =
           Inr (f\<lparr>lastChecked := Some now,
                  title := (if result_title res \<noteq> [] \<and> result_title res \<noteq> url f
                            then result_title res else title f)\<rparr>,
                st\<lparr>console := console st @ [Log_crawling (title f) (url f), Log_no_change]\<rparr>)"
  by (simp add: crawl_body_unchanged [OF assms] update_metadata_def Let_def)

theorem unchanged_source_metadata_witness:
  "fetchContent (url ex_feed) (selector_or_body ex_feed) (http ex_event) = (Some ex_result, [])
   \<and> loadSnapshot (feed_id ex_feed) (read_fails ex_event)
        (snapshots (ex_state [js ''blog'' \<mapsto> js ''Hello\<newline>World\<newline>Foo'']))
       = Some (js ''Hello\<newline>World\<newline>Foo'')
   \<and> generateHash ex_libs (js ''Hello\<newline>World\<newline>Foo'') = generateHash ex_libs (content ex_result)
   \<and> crawl_body ex_libs ex_now ex_event ex_feed
        (ex_state [js ''blog'' \<mapsto> js ''Hello\<newline>World\<newline>Foo''])
       = Inr (ex_feed\<lparr>lastChecked := Some ex_now\<rparr>,
              (ex_state [js ''blog'' \<mapsto> js ''Hello\<newline>World\<newline>Foo''])
                \<lparr>console := [Log_start, Log_crawling (js ''Example'') (js ''https://example.com''),
                              Log_no_change]\<rparr>)"
proof -
  let ?st = "ex_state [js ''blog'' \<mapsto> js ''Hello\<newline>World\<newline>Foo'']"
  have h1: "fetchContent (url ex_feed) (selector_or_body ex_feed) (http ex_event) = (Some ex_result, [])"
    by (rule ex_fetch)
  have h2: "loadSnapshot (feed_id ex_feed) (read_fails ex_event) (snapshots ?st)
              = Some (js ''Hello\<newline>World\<newline>Foo'')"
    by (simp add: loadSnapshot_def ex_feed_def ex_event_def ex_state_def)
  have h3: "generateHash ex_libs (js ''Hello\<newline>World\<newline>Foo'') = generateHash ex_libs (content ex_result)"
    by (simp add: generateHash_def ex_libs_def ex_result_def)
  from unchanged_source_metadata [OF h1 h2 h3, of ex_now]
  have "crawl_body ex_libs ex_now ex_event ex_feed ?st
       = Inr (ex_feed\<lparr>lastChecked := Some ex_now\<rparr>,
              ?st\<lparr>console := [Log_start, Log_crawling (js ''Example'') (js ''https://example.com''),
                              Log_no_change]\<rparr>)"
    by (simp add: ex_state_def ex_feed_def ex_result_def js_def)
  with h1 h2 h3 show ?thesis by blast
qed

text \<open>
  C6. A source whose fetch fails (the request throws, which is how a transport error or a
  timeout arrives, or the status is not ok): the iteration logs the failure and the skip,
  raises nothing, and leaves the feed object, the snapshot files, the history and the
  counter as they were (only the console grows); the loop goes on with the remaining
  sources exactly as it would from that state.
\<close>

theorem failed_fetch_skipped:
  assumes "http (evs 0) = Fetch_throws \<or> (\<exists>pg. http (evs 0) = Responds False pg)"
  shows "crawl_body L now (evs 0) f st =
           Inr (f, st\<lparr>console := console st @
                  [Log_crawling (title f) (url f), Log_fetch_error (url f), Log_skip]\<rparr>)
         \<and> crawl_loop L now evs (f # rest) st =
             (case crawl_loop L now (\<lambda>i. evs (Suc i)) rest
                     (st\<lparr>console := console st @
                        [Log_crawling (title f) (url f), Log_fetch_error (url f), Log_skip]\<rparr>) of
                Inl e \<Rightarrow> Inl e
              | Inr (rest', st'') \<Rightarrow> Inr (f # rest', st''))"
proof -
  have "fetchContent (url f) (selector_or_body f) (http (evs 0)) = (None, [Log_fetch_error (url f)])"
    by (rule fetchContent_fails [OF assms])
  from crawl_body_skip [OF this] have
    b: "crawl_body L now (evs 0) f st =
           Inr (f, st\<lparr>console := console st @
                  [Log_crawling (title f) (url f), Log_fetch_error (url f), Log_skip]\<rparr>)"
    by simp
  then show ?thesis by simp
qed

theorem failed_fetch_skipped_witness:
  "(http (ex_events Fetch_throws False False 0) = Fetch_throws
      \<or> (\<exists>pg. http (ex_events Fetch_throws False False 0) = Responds False pg))
   \<and> crawl_body ex_libs ex_now (ex_events Fetch_throws False False 0) ex_feed
        (ex_state [js ''blog'' \<mapsto> js ''Hello\<newline>World'']) =
       Inr (ex_feed, (ex_state [js ''blog'' \<mapsto> js ''Hello\<newline>World''])
              \<lparr>console := [Log_start, Log_crawling (js ''Example'') (js ''https://example.com''),
                            Log_fetch_error (js ''https://example.com''), Log_skip]\<rparr>)
   \<and> crawl_loop ex_libs ex_now (ex_events Fetch_throws False False) [ex_feed, ex_feed2]
        (ex_state [js ''blog'' \<mapsto> js ''Hello\<newline>World'']) =
       Inr ([ex_feed, ex_feed2\<lparr>lastChecked := Some ex_now, title := js ''Example''\<rparr>],
            (ex_state [js ''blog'' \<mapsto> js ''Hello\<newline>World'',
                       js ''news'' \<mapsto> js ''Hello\<newline>World\<newline>Foo''])
              \<lparr>console := [Log_start, Log_crawling (js ''Example'') (js ''https://example.com''),
                            Log_fetch_error (js ''https://example.com''), Log_skip,
                            Log_crawling (js ''News'') (js ''https://example.org''),
                            Log_first_snapshot]\<rparr>)"
proof -
  let ?evs = "ex_events Fetch_throws False False"
  let ?st = "ex_state [js ''blog'' \<mapsto> js ''Hello\<newline>World'']"
  have h: "http (?evs 0) = Fetch_throws \<or> (\<exists>pg. http (?evs 0) = Responds False pg)"
    by (simp add: ex_events_def)
  note t = failed_fetch_skipped [where evs = ?evs and L = ex_libs and now = ex_now
      and f = ex_feed and st = ?st and rest = "[ex_feed2]", OF h]
  have c1: "crawl_body ex_libs ex_now (?evs 0) ex_feed ?st =
       Inr (ex_feed, ?st\<lparr>console := [Log_start, Log_crawling (js ''Example'') (js ''https://example.com''),
                            Log_fetch_error (js ''https://example.com''), Log_skip]\<rparr>)"
    using t by (simp add: ex_state_def ex_feed_def)
  have c2: "crawl_loop ex_libs ex_now ?evs [ex_feed, ex_feed2] ?st =
       Inr ([ex_feed, ex_feed2\<lparr>lastChecked := Some ex_now, title := js ''Example''\<rparr>],
            (ex_state [js ''blog'' \<mapsto> js ''Hello\<newline>World'',
                       js ''news'' \<mapsto> js ''Hello\<newline>World\<newline>Foo''])
              \<lparr>console := [Log_start, Log_crawling (js ''Example'') (js ''https://example.com''),
                            Log_fetch_error (js ''https://example.com''), Log_skip,
                            Log_crawling (js ''News'') (js ''https://example.org''),
                            Log_first_snapshot]\<rparr>)"
    unfolding conjunct2 [OF t]
    by (simp add: ex_defs model_defs js_def)
  from h c1 c2 show ?thesis by blast
qed

text \<open>
  C7, as stated: a snapshot write failure for one source does not abort the run and the
  remaining sources are processed. \<open>saveSnapshot\<close> has no handler and neither has the
  loop: with two sources and a failing write for the first, the run ends rejected, the
  second source is never visited and nothing is persisted.
\<close>

theorem snapshot_write_failure_counterexample:
  "write_fails (events (ex_env (ex_events (Responds True (ex_page (js ''Example''))) False True)) 0)
   \<and> rejected (crawl ex_libs (ex_env (ex_events (Responds True (ex_page (js ''Example''))) False True))
         (ex_disk \<lparr>updates = []\<rparr> Map.empty)) = Some SnapshotWriteError
   \<and> disk_after (crawl ex_libs (ex_env (ex_events (Responds True (ex_page (js ''Example''))) False True))
         (ex_disk \<lparr>updates = []\<rparr> Map.empty)) = ex_disk \<lparr>updates = []\<rparr> Map.empty
   \<and> console_out (crawl ex_libs (ex_env (ex_events (Responds True (ex_page (js ''Example''))) False True))
         (ex_disk \<lparr>updates = []\<rparr> Map.empty))
       = [Log_start, Log_crawling (js ''Example'') (js ''https://example.com''), Log_first_snapshot]"
  by (simp add: ex_defs model_defs js_def)

text \<open>
  C7, amended: a snapshot read failure is recoverable for the source: it is treated as
  first-seen (the fetched text is stored, no ChangeRecord) and the loop goes on with the
  remaining sources. A snapshot write failure, in the first-seen or the changed case, is
  not recovered: it leaves the loop at once, the remaining sources are not processed, and
  the run ends rejected with the registry and the history files as they were.
\<close>

theorem snapshot_io_failures:
  "(fetchContent (url f) (selector_or_body f) (http (evs 0)) = (Some res, lg)
      \<and> read_fails (evs 0) \<and> \<not> write_fails (evs 0) \<longrightarrow>
      crawl_body L now (evs 0) f st =
        Inr (update_metadata now res f,
             st\<lparr>console := console st @ [Log_crawling (title f) (url f), Log_first_snapshot],
                snapshots := (snapshots st)(feed_id f \<mapsto> content res)\<rparr>)
      \<and> crawl_loop L now evs (f # rest) st =
          (case crawl_loop L now (\<lambda>i. evs (Suc i)) rest
                  (st\<lparr>console := console st @ [Log_crawling (title f) (url f), Log_first_snapshot],
                     snapshots := (snapshots st)(feed_id f \<mapsto> content res)\<rparr>) of
             Inl e \<Rightarrow> Inl e
           | Inr (rest', st'') \<Rightarrow> Inr (update_metadata now res f # rest', st'')))
   \<and> (fetchContent (url f) (selector_or_body f) (http (evs 0)) = (Some res, lg)
      \<and> (loadSnapshot (feed_id f) (read_fails (evs 0)) (snapshots st) = None
          \<or> (\<exists>prev. loadSnapshot (feed_id f) (read_fails (evs 0)) (snapshots st) = Some prev
                \<and> generateHash L prev \<noteq> generateHash L (content res)))
      \<and> write_fails (evs 0) \<longrightarrow>
      (\<exists>st'. crawl_body L now (evs 0) f st = Inl (SnapshotWriteError, st')
         \<and> crawl_loop L now evs (f # rest) st = Inl (SnapshotWriteError, st')
         \<and> snapshots st' = snapshots st))
   \<and> (feeds_file d = Some fd \<and> history_file d = Some h
      \<and> crawl_loop L (now_iso env) (events env) (feeds fd)
           \<lparr>snapshots = snapshot_files d, historyData = h, updatedCount = 0,
            console = [Log_start]\<rparr> = Inl (e, st1) \<longrightarrow>
      rejected (crawl L env d) = Some e
      \<and> feeds_file (disk_after (crawl L env d)) = feeds_file d
      \<and> history_file (disk_after (crawl L env d)) = history_file d)"
proof (intro conjI impI)
  assume a: "fetchContent (url f) (selector_or_body f) (http (evs 0)) = (Some res, lg)
      \<and> read_fails (evs 0) \<and> \<not> write_fails (evs 0)"
  then have l: "loadSnapshot (feed_id f) (read_fails (evs 0)) (snapshots st) = None"
    by (simp add: loadSnapshot_def)
  from a have f0: "fetchContent (url f) (selector_or_body f) (http (evs 0)) = (Some res, lg)"
    and w: "\<not> write_fails (evs 0)" by simp_all
  show b: "crawl_body L now (evs 0) f st =
        Inr (update_metadata now res f,
             st\<lparr>console := console st @ [Log_crawling (title f) (url f), Log_first_snapshot],
                snapshots := (snapshots st)(feed_id f \<mapsto> content res)\<rparr>)"
    by (rule crawl_body_first [OF f0 l w])
  show "crawl_loop L now evs (f # rest) st =
          (case crawl_loop L now (\<lambda>i. evs (Suc i)) rest
                  (st\<lparr>console := console st @ [Log_crawling (title f) (url f), Log_first_snapshot],
                     snapshots := (snapshots st)(feed_id f \<mapsto> content res)\<rparr>) of
             Inl e \<Rightarrow> Inl e
           | Inr (rest', st'') \<Rightarrow> Inr (update_metadata now res f # rest', st''))"
    by (simp add: b)
next
  assume a: "fetchContent (url f) (selector_or_body f) (http (evs 0)) = (Some res, lg)
      \<and> (loadSnapshot (feed_id f) (read_fails (evs 0)) (snapshots st) = None
          \<or> (\<exists>prev. loadSnapshot (feed_id f) (read_fails (evs 0)) (snapshots st) = Some prev
                \<and> generateHash L prev \<noteq> generateHash L (content res)))
      \<and> write_fails (evs 0)"
  then have a1: "fetchContent (url f) (selector_or_body f) (http (evs 0)) = (Some res, lg)"
    and a2: "loadSnapshot (feed_id f) (read_fails (evs 0)) (snapshots st) = None
          \<or> (\<exists>prev. loadSnapshot (feed_id f) (read_fails (evs 0)) (snapshots st) = Some prev
                \<and> generateHash L prev \<noteq> generateHash L (content res))"
    and a3: "write_fails (evs 0)" by blast+
  from crawl_body_write_fails [OF a1 a2 a3, of now] obtain st' where
    b: "crawl_body L now (evs 0) f st = Inl (SnapshotWriteError, st')"
    and s: "snapshots st' = snapshots st" by blast
  from b have "crawl_loop L now evs (f # rest) st = Inl (SnapshotWriteError, st')"
    by simp
  with b s show "\<exists>st'. crawl_body L now (evs 0) f st = Inl (SnapshotWriteError, st')
         \<and> crawl_loop L now evs (f # rest) st = Inl (SnapshotWriteError, st')
         \<and> snapshots st' = snapshots st" by blast
next
  assume a: "feeds_file d = Some fd \<and> history_file d = Some h
      \<and> crawl_loop L (now_iso env) (events env) (feeds fd)
           \<lparr>snapshots = snapshot_files d, historyData = h, updatedCount = 0,
            console = [Log_start]\<rparr> = Inl (e, st1)"
  then have c: "crawl L env d =
           \<lparr>rejected = Some e, disk_after = d\<lparr>snapshot_files := snapshots st1\<rparr>,
            console_out = console st1\<rparr>"
    using crawl_rejects [of d fd h L env e st1] by simp
  show "rejected (crawl L env d) = Some e" by (simp add: c)
  show "feeds_file (disk_after (crawl L env d)) = feeds_file d" by (simp add: c)
  show "history_file (disk_after (crawl L env d)) = history_file d" by (simp add: c)
qed

theorem snapshot_io_failures_witness:
  "fetchContent (url ex_feed) (selector_or_body ex_feed)
       (http (ex_events (Responds True (ex_page (js ''Example''))) True False 0)) = (Some ex_result, [])
   \<and> read_fails (ex_events (Responds True (ex_page (js ''Example''))) True False 0)
   \<and> \<not> write_fails (ex_events (Responds True (ex_page (js ''Example''))) True False 0)
   \<and> crawl_body ex_libs ex_now (ex_events (Responds True (ex_page (js ''Example''))) True False 0)
        ex_feed (ex_state [js ''blog'' \<mapsto> js ''Hello\<newline>World''])
       = Inr (ex_feed\<lparr>lastChecked := Some ex_now\<rparr>,
              (ex_state [js ''blog'' \<mapsto> js ''Hello\<newline>World\<newline>Foo''])
                \<lparr>console := [Log_start, Log_crawling (js ''Example'') (js ''https://example.com''),
                              Log_first_snapshot]\<rparr>)
   \<and> fetchContent (url ex_feed) (selector_or_body ex_feed)
       (http (ex_events (Responds True (ex_page (js ''Example''))) False True 0)) = (Some ex_result, [])
   \<and> loadSnapshot (feed_id ex_feed)
        (read_fails (ex_events (Responds True (ex_page (js ''Example''))) False True 0))
        (snapshots (ex_state Map.empty)) = None
   \<and> write_fails (ex_events (Responds True (ex_page (js ''Example''))) False True 0)
   \<and> (\<exists>st'. crawl_loop ex_libs ex_now (ex_events (Responds True (ex_page (js ''Example''))) False True)
               [ex_feed, ex_feed2] (ex_state Map.empty) = Inl (SnapshotWriteError, st')
          \<and> snapshots st' = Map.empty)"
proof -
  let ?rf = "ex_events (Responds True (ex_page (js ''Example''))) True False"
  let ?wf = "ex_events (Responds True (ex_page (js ''Example''))) False True"
  have h1: "fetchContent (url ex_feed) (selector_or_body ex_feed) (http (?rf 0)) = (Some ex_result, [])"
    using ex_fetch by (simp add: ex_events_def ex_event_def)
  have h2: "read_fails (?rf 0)" and h3: "\<not> write_fails (?rf 0)"
    by (simp_all add: ex_events_def)
  note t1 = snapshot_io_failures [where evs = ?rf and f = ex_feed and res = ex_result and lg = "[]"
      and L = ex_libs and now = ex_now and st = "ex_state [js ''blog'' \<mapsto> js ''Hello\<newline>World'']",
      THEN conjunct1, rule_format, OF conjI [OF h1 conjI [OF h2 h3]], THEN conjunct1]
  have c1: "crawl_body ex_libs ex_now (?rf 0) ex_feed (ex_state [js ''blog'' \<mapsto> js ''Hello\<newline>World''])
       = Inr (ex_feed\<lparr>lastChecked := Some ex_now\<rparr>,
              (ex_state [js ''blog'' \<mapsto> js ''Hello\<newline>World\<newline>Foo''])
                \<lparr>console := [Log_start, Log_crawling (js ''Example'') (js ''https://example.com''),
                              Log_first_snapshot]\<rparr>)"
    unfolding t1
    by (simp add: update_metadata_def ex_state_def ex_feed_def ex_result_def js_def)
  have g1: "fetchContent (url ex_feed) (selector_or_body ex_feed) (http (?wf 0)) = (Some ex_result, [])"
    using ex_fetch by (simp add: ex_events_def ex_event_def)
  have g2: "loadSnapshot (feed_id ex_feed) (read_fails (?wf 0)) (snapshots (ex_state Map.empty)) = None"
    by (simp add: loadSnapshot_def ex_state_def ex_events_def)
  have g3: "write_fails (?wf 0)"
    by (simp add: ex_events_def)
  note t2 = snapshot_io_failures [where evs = ?wf and f = ex_feed and res = ex_result and lg = "[]"
      and L = ex_libs and now = ex_now and st = "ex_state Map.empty" and rest = "[ex_feed2]",
      THEN conjunct2, THEN conjunct1, rule_format, OF conjI [OF g1 conjI [OF disjI1 [OF g2] g3]]]
  from t2 have c2: "\<exists>st'. crawl_loop ex_libs ex_now ?wf [ex_feed, ex_feed2] (ex_state Map.empty)
                        = Inl (SnapshotWriteError, st') \<and> snapshots st' = Map.empty"
    by (auto simp: ex_state_def)
  from h1 h2 h3 c1 g1 g2 g3 c2 show ?thesis by blast
qed

text \<open>
  C8. With the line diff of the spec in the place of \<open>Diff.diffLines\<close>, the diff of a text
  against itself has no added and no removed segment: \<open>calculateDiff\<close> returns the empty
  list, and so does the sequence that would be recorded.
\<close>

theorem diff_of_identical_texts:
  "calculateDiff (L\<lparr>diffLines := spec_diffLines\<rparr>) a a = []
   \<and> map diff_entry_of (calculateDiff (L\<lparr>diffLines := spec_diffLines\<rparr>) a a) = []"
proof -
  have "calculateDiff (L\<lparr>diffLines := spec_diffLines\<rparr>) a a = []"
    using spec_diffLines_same [of _ a]
    by (auto simp: calculateDiff_def filter_empty_conv)
  then show ?thesis by simp
qed

theorem diff_of_identical_texts_witness:
  "calculateDiff ex_libs (js ''Hello\<newline>World'') (js ''Hello\<newline>World'') = []"
  using diff_of_identical_texts [of ex_libs "js ''Hello\<newline>World''"]
  by (simp add: ex_libs_def)


text \<open>
  C9, as stated: for the old text Hello, World (two lines, the last without a line feed)
  and the new text Hello, World, Foo (three lines) the record has one added segment and the
  summary counts one added and no removed segment. The crawler passes both texts to
  \<open>Diff.diffLines\<close> with its default options. With line tokens that keep their
  terminator, the old last line \<open>World\<close> differs from the new line \<open>World\<close> with
  its line feed: the record gets a removed segment \<open>World\<close> and an added segment of
  the lines World and Foo, and the summary counts one added and one removed segment.
\<close>

theorem change_record_example_counterexample:
  "diffLines ex_token_libs (js ''Hello\<newline>World'') (js ''Hello\<newline>World\<newline>Foo'')
     = [\<lparr>part_value = js ''Hello\<newline>'', added = False, removed = False\<rparr>,
        \<lparr>part_value = js ''World'', added = False, removed = True\<rparr>,
        \<lparr>part_value = js ''World\<newline>Foo'', added = True, removed = False\<rparr>]
   \<and> crawl_body ex_token_libs ex_now ex_event ex_feed
        (ex_state [js ''blog'' \<mapsto> js ''Hello\<newline>World''])
     = Inr (ex_feed\<lparr>lastChecked := Some ex_now, lastUpdated := Some ex_now\<rparr>,
            \<lparr>snapshots = [js ''blog'' \<mapsto> js ''Hello\<newline>World\<newline>Foo''],
             historyData = \<lparr>updates =
               [\<lparr>rec_id = js ''blog-1768780800000'', feedId = js ''blog'',
                 feedTitle = js ''Example'', rec_url = js ''https://example.com'',
                 rec_tags = [js ''tech''], detectedAt = ex_now,
                 diff = [\<lparr>entry_type = Removed, entry_content = js ''World''\<rparr>,
                         \<lparr>entry_type = Added, entry_content = js ''World\<newline>Foo''\<rparr>],
                 diffSummary = js ''+1'' @ [ken] @ js '' / -1'' @ [ken]\<rparr>]\<rparr>,
             updatedCount = 1,
             console = [Log_start, Log_crawling (js ''Example'') (js ''https://example.com''),
                        Log_update_detected]\<rparr>)
   \<and> js ''+1'' @ [ken] @ js '' / -1'' @ [ken] \<noteq> js ''+1'' @ [ken] @ js '' / -0'' @ [ken]"
  by (simp add: ex_token_libs_def token_diffLines_def kept_def part_of_tokens_def
      ex_feed_def ex_event_def ex_page_def ex_state_def model_defs diff_entry_of_def
      summary_of_def show_int_def show_nat.simps digit_def js_def)

text \<open>
  C9, amended. For a changed source, whatever \<open>Diff.diffLines\<close> returns for the old and
  the new text: the \<open>diff\<close> of the new ChangeRecord is that sequence restricted to its
  added and removed parts, in the same order, each with its type and the first 500 code
  units of its text, and the summary is the number of added and of removed parts between
  \<open>+\<close>, the counter word, \<open> / -\<close> and the counter word. In the example, with a line
  diff whose line tokens keep their terminator, the record has the removed segment
  \<open>World\<close> followed by the added segment of the lines World and Foo, and its summary
  counts one added and one removed segment.
\<close>

theorem change_record_diff:
  "(fetchContent (url f) (selector_or_body f) (http ev) = (Some res, lg)
      \<and> loadSnapshot (feed_id f) (read_fails ev) (snapshots st) = Some prev
      \<and> generateHash L prev \<noteq> generateHash L (content res)
      \<and> \<not> write_fails ev \<longrightarrow>
      (\<exists>f' st' r. crawl_body L now ev f st = Inr (f', st')
           \<and> updates (historyData st') = r # updates (historyData st)
           \<and> diff r = map (\<lambda>p. \<lparr>entry_type = (if added p then Added else Removed),
                                  entry_content = take 500 (part_value p)\<rparr>)
                          (filter (\<lambda>p. added p \<or> removed p) (diffLines L prev (content res)))
           \<and> list_all (\<lambda>e. length (entry_content e) \<le> 500) (diff r)
           \<and> diffSummary r =
                js ''+'' @ show_nat (length (filter added (diffLines L prev (content res))))
                  @ [ken] @ js '' / -''
                  @ show_nat (length (filter removed (diffLines L prev (content res)))) @ [ken]))
   \<and> (\<exists>f' st' r. crawl_body ex_token_libs ex_now ex_event ex_feed
                     (ex_state [js ''blog'' \<mapsto> js ''Hello\<newline>World'']) = Inr (f', st')
           \<and> snapshots st' = [js ''blog'' \<mapsto> js ''Hello\<newline>World\<newline>Foo'']
           \<and> updates (historyData st') = [r]
           \<and> diff r = [\<lparr>entry_type = Removed, entry_content = js ''World''\<rparr>,
                       \<lparr>entry_type = Added, entry_content = js ''World\<newline>Foo''\<rparr>]
           \<and> diffSummary r = js ''+1'' @ [ken] @ js '' / -1'' @ [ken])"
proof (intro conjI impI)
  assume a: "fetchContent (url f) (selector_or_body f) (http ev) = (Some res, lg)
      \<and> loadSnapshot (feed_id f) (read_fails ev) (snapshots st) = Some prev
      \<and> generateHash L prev \<noteq> generateHash L (content res)
      \<and> \<not> write_fails ev"
  then have a1: "fetchContent (url f) (selector_or_body f) (http ev) = (Some res, lg)"
    and a2: "loadSnapshot (feed_id f) (read_fails ev) (snapshots st) = Some prev"
    and a3: "generateHash L prev \<noteq> generateHash L (content res)"
    and a4: "\<not> write_fails ev" by simp_all
  let ?d = "calculateDiff L prev (content res)"
  let ?r = "new_record now (clock_ms ev) (update_metadata now res f) ?d"
  have d: "diff ?r = map (\<lambda>p. \<lparr>entry_type = (if added p then Added else Removed),
                                  entry_content = take 500 (part_value p)\<rparr>)
                          (filter (\<lambda>p. added p \<or> removed p) (diffLines L prev (content res)))"
    by (simp add: new_record_def calculateDiff_def diff_entry_of_def)
  have l: "list_all (\<lambda>e. length (entry_content e) \<le> 500) (diff ?r)"
    by (simp add: new_record_def list_all_iff diff_entry_of_def)
  have s: "diffSummary ?r =
                js ''+'' @ show_nat (length (filter added (diffLines L prev (content res))))
                  @ [ken] @ js '' / -''
                  @ show_nat (length (filter removed (diffLines L prev (content res)))) @ [ken]"
    by (simp add: new_record_def summary_of_calculateDiff)
  have u: "\<exists>f' st'. crawl_body L now ev f st = Inr (f', st')
             \<and> updates (historyData st') = ?r # updates (historyData st)"
    by (simp add: crawl_body_changed [OF a1 a2 a3 a4])
  from u d l s show "\<exists>f' st' r. crawl_body L now ev f st = Inr (f', st')
           \<and> updates (historyData st') = r # updates (historyData st)
           \<and> diff r = map (\<lambda>p. \<lparr>entry_type = (if added p then Added else Removed),
                                  entry_content = take 500 (part_value p)\<rparr>)
                          (filter (\<lambda>p. added p \<or> removed p) (diffLines L prev (content res)))
           \<and> list_all (\<lambda>e. length (entry_content e) \<le> 500) (diff r)
           \<and> diffSummary r =
                js ''+'' @ show_nat (length (filter added (diffLines L prev (content res))))
                  @ [ken] @ js '' / -''
                  @ show_nat (length (filter removed (diffLines L prev (content res)))) @ [ken]"
    by blast
next
  show "\<exists>f' st' r. crawl_body ex_token_libs ex_now ex_event ex_feed
                     (ex_state [js ''blog'' \<mapsto> js ''Hello\<newline>World'']) = Inr (f', st')
           \<and> snapshots st' = [js ''blog'' \<mapsto> js ''Hello\<newline>World\<newline>Foo'']
           \<and> updates (historyData st') = [r]
           \<and> diff r = [\<lparr>entry_type = Removed, entry_content = js ''World''\<rparr>,
                       \<lparr>entry_type = Added, entry_content = js ''World\<newline>Foo''\<rparr>]
           \<and> diffSummary r = js ''+1'' @ [ken] @ js '' / -1'' @ [ken]"
    by (simp add: ex_token_libs_def token_diffLines_def kept_def part_of_tokens_def
        ex_feed_def ex_event_def ex_page_def ex_state_def ex_result_def model_defs
        diff_entry_of_def summary_of_def show_nat.simps digit_def js_def)
qed

theorem change_record_diff_witness:
  "fetchContent (url ex_feed) (selector_or_body ex_feed) (http ex_event) = (Some ex_result, [])
   \<and> loadSnapshot (feed_id ex_feed) (read_fails ex_event)
        (snapshots (ex_state [js ''blog'' \<mapsto> js ''a\<newline>b\<newline>''])) = Some (js ''a\<newline>b\<newline>'')
   \<and> generateHash ex_token_libs (js ''a\<newline>b\<newline>'') \<noteq> generateHash ex_token_libs (content ex_result)
   \<and> \<not> write_fails ex_event
   \<and> diffLines ex_token_libs (js ''a\<newline>b\<newline>'') (content ex_result)
       = [\<lparr>part_value = js ''a\<newline>b\<newline>'', added = False, removed = True\<rparr>,
          \<lparr>part_value = js ''Hello\<newline>World\<newline>Foo'', added = True, removed = False\<rparr>]
   \<and> (\<exists>f' st' r. crawl_body ex_token_libs ex_now ex_event ex_feed
                     (ex_state [js ''blog'' \<mapsto> js ''a\<newline>b\<newline>'']) = Inr (f', st')
           \<and> updates (historyData st') = [r]
           \<and> diff r = [\<lparr>entry_type = Removed, entry_content = js ''a\<newline>b\<newline>''\<rparr>,
                       \<lparr>entry_type = Added, entry_content = js ''Hello\<newline>World\<newline>Foo''\<rparr>]
           \<and> diffSummary r = js ''+1'' @ [ken] @ js '' / -1'' @ [ken])"
proof -
  let ?st = "ex_state [js ''blog'' \<mapsto> js ''a\<newline>b\<newline>'']"
  have h1: "fetchContent (url ex_feed) (selector_or_body ex_feed) (http ex_event) = (Some ex_result, [])"
    by (rule ex_fetch)
  have h2: "loadSnapshot (feed_id ex_feed) (read_fails ex_event) (snapshots ?st)
              = Some (js ''a\<newline>b\<newline>'')"
    by (simp add: loadSnapshot_def ex_feed_def ex_event_def ex_state_def)
  have h3: "generateHash ex_token_libs (js ''a\<newline>b\<newline>'') \<noteq> generateHash ex_token_libs (content ex_result)"
    by (simp add: generateHash_def ex_token_libs_def ex_result_def js_def)
  have h4: "\<not> write_fails ex_event"
    by (simp add: ex_event_def)
  have dl: "diffLines ex_token_libs (js ''a\<newline>b\<newline>'') (content ex_result)
        = [\<lparr>part_value = js ''a\<newline>b\<newline>'', added = False, removed = True\<rparr>,
           \<lparr>part_value = js ''Hello\<newline>World\<newline>Foo'', added = True, removed = False\<rparr>]"
    by (simp add: ex_token_libs_def ex_result_def token_diffLines_def js_def kept_def
        part_of_tokens_def)
  from change_record_diff [where L = ex_token_libs and now = ex_now and ev = ex_event
      and f = ex_feed and st = ?st and res = ex_result and lg = "[]" and prev = "js ''a\<newline>b\<newline>''",
      THEN conjunct1, rule_format, OF conjI [OF h1 conjI [OF h2 conjI [OF h3 h4]]]]
  have "\<exists>f' st' r. crawl_body ex_token_libs ex_now ex_event ex_feed ?st = Inr (f', st')
           \<and> updates (historyData st') = [r]
           \<and> diff r = [\<lparr>entry_type = Removed, entry_content = js ''a\<newline>b\<newline>''\<rparr>,
                       \<lparr>entry_type = Added, entry_content = js ''Hello\<newline>World\<newline>Foo''\<rparr>]
           \<and> list_all (\<lambda>e. length (entry_content e) \<le> 500) (diff r)
           \<and> diffSummary r = js ''+1'' @ [ken] @ js '' / -1'' @ [ken]"
    unfolding dl
    by (simp add: ex_state_def show_nat.simps digit_def js_def)
  then have "\<exists>f' st' r. crawl_body ex_token_libs ex_now ex_event ex_feed ?st = Inr (f', st')
           \<and> updates (historyData st') = [r]
           \<and> diff r = [\<lparr>entry_type = Removed, entry_content = js ''a\<newline>b\<newline>''\<rparr>,
                       \<lparr>entry_type = Added, entry_content = js ''Hello\<newline>World\<newline>Foo''\<rparr>]
           \<and> diffSummary r = js ''+1'' @ [ken] @ js '' / -1'' @ [ken]"
    by blast
  with h1 h2 h3 h4 dl show ?thesis by blast
qed

text \<open>
  C10. An iteration adds at most one ChangeRecord, and a whole run of the loop adds, in
  front of the history it started with, at most one record for each position of the
  registry (the positions of the new records are strictly decreasing, newest first). Every
  new record carries the timestamp \<open>now\<close> that the pass took once before the loop, and
  its identifier is the feed id, a hyphen and the value of \<open>Date.now()\<close> read when the
  record was created, which is independent of \<open>now\<close>.
\<close>

theorem records_of_a_pass:
  "(crawl_body L now ev f st = Inr (f', st') \<longrightarrow>
      updates (historyData st') = updates (historyData st)
      \<or> (\<exists>r. updates (historyData st') = r # updates (historyData st)
            \<and> detectedAt r = now \<and> feedId r = feed_id f
            \<and> rec_id r = feed_id f @ js ''-'' @ show_int (clock_ms ev)))
   \<and> (crawl_loop L now evs fs st = Inr (fs', st'') \<longrightarrow>
      (\<exists>new is. updates (historyData st'') = new @ updates (historyData st)
         \<and> sorted_wrt (>) is
         \<and> list_all2 (\<lambda>r i. i < length fs \<and> detectedAt r = now
                \<and> feedId r = feed_id (fs ! i)
                \<and> rec_id r = feed_id (fs ! i) @ js ''-'' @ show_int (clock_ms (evs i))) new is))"
proof (intro conjI impI)
  assume "crawl_body L now ev f st = Inr (f', st')"
  from crawl_body_history [OF this]
  show "updates (historyData st') = updates (historyData st)
      \<or> (\<exists>r. updates (historyData st') = r # updates (historyData st)
            \<and> detectedAt r = now \<and> feedId r = feed_id f
            \<and> rec_id r = feed_id f @ js ''-'' @ show_int (clock_ms ev))"
    by blast
next
  assume "crawl_loop L now evs fs st = Inr (fs', st'')"
  from crawl_loop_history [OF this]
  show "\<exists>new is. updates (historyData st'') = new @ updates (historyData st)
         \<and> sorted_wrt (>) is
         \<and> list_all2 (\<lambda>r i. i < length fs \<and> detectedAt r = now
                \<and> feedId r = feed_id (fs ! i)
                \<and> rec_id r = feed_id (fs ! i) @ js ''-'' @ show_int (clock_ms (evs i))) new is"
    by blast
qed

theorem records_of_a_pass_witness:
  "(\<exists>f' st' r. crawl_body ex_libs ex_now ex_event ex_feed
        (ex_state [js ''blog'' \<mapsto> js ''Hello\<newline>World'']) = Inr (f', st')
      \<and> updates (historyData st') = [r] \<and> detectedAt r = ex_now \<and> feedId r = js ''blog''
      \<and> rec_id r = js ''blog-1768780800000'')
   \<and> (\<exists>fs' st'' r1 r2. crawl_loop ex_libs ex_now
          (ex_events (Responds True (ex_page (js ''Example''))) False False) [ex_feed, ex_feed2]
          (ex_state [js ''blog'' \<mapsto> js ''Hello\<newline>World'', js ''news'' \<mapsto> js ''Old''])
         = Inr (fs', st'')
      \<and> updates (historyData st'') = [r2, r1]
      \<and> detectedAt r1 = ex_now \<and> detectedAt r2 = ex_now
      \<and> rec_id r1 = js ''blog-1768780800000'' \<and> rec_id r2 = js ''news-1768780801500'')"
proof -
  let ?st = "ex_state [js ''blog'' \<mapsto> js ''Hello\<newline>World'']"
  have h2: "loadSnapshot (feed_id ex_feed) (read_fails ex_event) (snapshots ?st)
              = Some (js ''Hello\<newline>World'')"
    by (simp add: loadSnapshot_def ex_feed_def ex_event_def ex_state_def)
  have h3: "generateHash ex_libs (js ''Hello\<newline>World'') \<noteq> generateHash ex_libs (content ex_result)"
    by (simp add: generateHash_def ex_libs_def ex_result_def js_def)
  have h4: "\<not> write_fails ex_event"
    by (simp add: ex_event_def)
  from crawl_body_changed [OF ex_fetch h2 h3 h4, of ex_now] obtain f' st' r0 where
    b: "crawl_body ex_libs ex_now ex_event ex_feed ?st = Inr (f', st')" and
    u: "updates (historyData st') = r0 # updates (historyData ?st)"
    by simp
  from records_of_a_pass [where L = ex_libs and now = ex_now and ev = ex_event and f = ex_feed
      and st = ?st and f' = f' and st' = st', THEN conjunct1, rule_format, OF b] u
  obtain r where "updates (historyData st') = r # updates (historyData ?st)"
    "detectedAt r = ex_now" "feedId r = feed_id ex_feed"
    "rec_id r = feed_id ex_feed @ js ''-'' @ show_int (clock_ms ex_event)"
    by auto
  then have s1: "updates (historyData st') = [r] \<and> detectedAt r = ex_now \<and> feedId r = js ''blog''
      \<and> rec_id r = js ''blog-1768780800000''"
    by (simp add: ex_state_def ex_feed_def ex_event_def show_int_def show_nat.simps digit_def js_def)
  let ?evs = "ex_events (Responds True (ex_page (js ''Example''))) False False"
  let ?st2 = "ex_state [js ''blog'' \<mapsto> js ''Hello\<newline>World'', js ''news'' \<mapsto> js ''Old'']"
  have "\<forall>i<length [ex_feed, ex_feed2]. \<not> write_fails (?evs i)"
    by (simp add: ex_events_def ex_event_def)
  from crawl_loop_returns [OF this, of ex_libs ex_now ?st2] obtain fs' st'' where
    l: "crawl_loop ex_libs ex_now ?evs [ex_feed, ex_feed2] ?st2 = Inr (fs', st'')" by blast
  have len: "length (updates (historyData st'')) = 2"
    using l by (auto simp: ex_defs model_defs js_def)
  from records_of_a_pass [where L = ex_libs and now = ex_now and evs = ?evs
      and fs = "[ex_feed, ex_feed2]" and st = ?st2 and fs' = fs' and st'' = st'',
      THEN conjunct2, rule_format, OF l]
  obtain new "is" where
    n1: "updates (historyData st'') = new @ updates (historyData ?st2)" and
    n2: "sorted_wrt (>) is" and
    n3: "list_all2 (\<lambda>r i. i < length [ex_feed, ex_feed2] \<and> detectedAt r = ex_now
                \<and> feedId r = feed_id ([ex_feed, ex_feed2] ! i)
                \<and> rec_id r = feed_id ([ex_feed, ex_feed2] ! i) @ js ''-''
                     @ show_int (clock_ms (?evs i))) new is"
    by blast
  from n1 have n1': "updates (historyData st'') = new" by (simp add: ex_state_def)
  with len have "length new = 2" by simp
  then obtain r2 r1 where new: "new = [r2, r1]"
    by (auto simp: length_Suc_conv numeral_2_eq_2)
  with n3 obtain i2 i1 where "is": "is = [i2, i1]"
    by (auto simp: list_all2_Cons1)
  from n2 "is" have lt: "i1 < i2" by simp
  from n3 new "is" have bounds: "i2 < 2" "i1 < 2" by simp_all
  with lt have idx: "i1 = 0" "i2 = 1" by simp_all
  from n3 new "is" idx have
    "detectedAt r1 = ex_now \<and> detectedAt r2 = ex_now
      \<and> rec_id r1 = js ''blog-1768780800000'' \<and> rec_id r2 = js ''news-1768780801500''"
    by (simp add: ex_feed_def ex_feed2_def ex_events_def ex_event_def show_int_def
        show_nat.simps digit_def js_def)
  with l n1' new have s2: "\<exists>fs' st'' r1 r2. crawl_loop ex_libs ex_now ?evs [ex_feed, ex_feed2] ?st2
         = Inr (fs', st'')
      \<and> updates (historyData st'') = [r2, r1]
      \<and> detectedAt r1 = ex_now \<and> detectedAt r2 = ex_now
      \<and> rec_id r1 = js ''blog-1768780800000'' \<and> rec_id r2 = js ''news-1768780801500''"
    by blast
  from b s1 s2 show ?thesis by blast
qed

text \<open>
  C2. When a run completes, the history document it has written is the first 100 entries
  of the records of this pass (newest first, as many as the final report counts) followed
  by the history it read: its length is at most 100, a new record is always its first
  entry, and entries are dropped from the tail only. In particular, with 100 entries before
  and one change detected, the written history has length 100, the new record first, and
  the former entries without the last one after it.
\<close>

theorem history_capped:
  assumes "rejected (crawl L env d) = None"
  shows "\<exists>h h' new. history_file d = Some h
           \<and> history_file (disk_after (crawl L env d)) = Some h'
           \<and> updates h' = take 100 (new @ updates h)
           \<and> length (updates h') \<le> 100
           \<and> list_all (\<lambda>r. detectedAt r = now_iso env) new
           \<and> last (console_out (crawl L env d)) = Log_done (length new)
           \<and> (new \<noteq> [] \<longrightarrow> hd (updates h') = hd new)
           \<and> (length (updates h) = 100 \<and> length new = 1 \<longrightarrow>
                length (updates h') = 100 \<and> updates h' = new @ butlast (updates h))"
proof -
  from assms obtain fd h where fd: "feeds_file d = Some fd" and h: "history_file d = Some h"
    by (auto simp: crawl_def split: option.splits)
  let ?st0 = "\<lparr>snapshots = snapshot_files d, historyData = h, updatedCount = 0,
               console = [Log_start]\<rparr>"
  from assms fd h obtain fs st where
    loop: "crawl_loop L (now_iso env) (events env) (feeds fd) ?st0 = Inr (fs, st)"
    and nf: "\<not> feeds_write_fails env" "\<not> history_write_fails env"
    by (auto simp: crawl_def Let_def split: sum.splits prod.splits if_splits)
  let ?h' = "(historyData st)\<lparr>updates := take 100 (updates (historyData st))\<rparr>"
  have r1: "history_file (disk_after (crawl L env d)) = Some ?h'"
    and r2: "console_out (crawl L env d) = console st @ [Log_done (updatedCount st)]"
    using fd h loop nf by (simp_all add: crawl_def Let_def)
  from crawl_loop_history [OF loop] obtain new "is" where
    n1: "updates (historyData st) = new @ updates h" and
    n2: "updatedCount st = length new" and
    n4: "list_all2 (\<lambda>r i. i < length (feeds fd) \<and> detectedAt r = now_iso env
                  \<and> feedId r = feed_id (feeds fd ! i)
                  \<and> rec_id r = feed_id (feeds fd ! i) @ js ''-''
                      @ show_int (clock_ms (events env i))) new is"
    by auto
  have a: "updates ?h' = take 100 (new @ updates h)" using n1 by simp
  have b: "length (updates ?h') \<le> 100" by simp
  have c: "list_all (\<lambda>r. detectedAt r = now_iso env) new"
    using list_all2_setD [OF n4] by (auto simp: list_all_iff)
  have e: "last (console_out (crawl L env d)) = Log_done (length new)"
    using r2 n2 by simp
  have f: "new \<noteq> [] \<longrightarrow> hd (updates ?h') = hd new"
    using a by (cases new) simp_all
  have g: "length (updates h) = 100 \<and> length new = 1 \<longrightarrow>
             length (updates ?h') = 100 \<and> updates ?h' = new @ butlast (updates h)"
    using a by (auto simp: butlast_conv_take)
  from h r1 a b c e f g show ?thesis by blast
qed

theorem history_capped_witness:
  "rejected (crawl ex_libs (ex_env (ex_events (Responds True (ex_page (js ''Example''))) False False))
      (ex_disk ex_full_history
         [js ''blog'' \<mapsto> js ''Hello\<newline>World'',
          js ''news'' \<mapsto> js ''Hello\<newline>World\<newline>Foo''])) = None
   \<and> length (updates ex_full_history) = 100
   \<and> (\<exists>h' r. history_file (disk_after
          (crawl ex_libs (ex_env (ex_events (Responds True (ex_page (js ''Example''))) False False))
            (ex_disk ex_full_history
               [js ''blog'' \<mapsto> js ''Hello\<newline>World'',
                js ''news'' \<mapsto> js ''Hello\<newline>World\<newline>Foo'']))) = Some h'
        \<and> length (updates h') = 100
        \<and> updates h' = r # butlast (updates ex_full_history)
        \<and> detectedAt r = ex_now)"
proof -
  let ?env = "ex_env (ex_events (Responds True (ex_page (js ''Example''))) False False)"
  let ?d = "ex_disk ex_full_history
         [js ''blog'' \<mapsto> js ''Hello\<newline>World'',
          js ''news'' \<mapsto> js ''Hello\<newline>World\<newline>Foo'']"
  have h0: "rejected (crawl ex_libs ?env ?d) = None"
    by (simp add: ex_defs model_defs js_def)
  have l0: "last (console_out (crawl ex_libs ?env ?d)) = Log_done 1"
    by (simp add: ex_defs model_defs js_def)
  have len: "length (updates ex_full_history) = 100"
    by (simp add: ex_full_history_def)
  from history_capped [OF h0] obtain h h' new where
    p1: "history_file ?d = Some h" and
    p2: "history_file (disk_after (crawl ex_libs ?env ?d)) = Some h'" and
    p3: "list_all (\<lambda>r. detectedAt r = now_iso ?env) new" and
    p4: "last (console_out (crawl ex_libs ?env ?d)) = Log_done (length new)" and
    p5: "length (updates h) = 100 \<and> length new = 1 \<longrightarrow>
                length (updates h') = 100 \<and> updates h' = new @ butlast (updates h)"
    by blast
  from p1 have hh: "h = ex_full_history" by (simp add: ex_disk_def)
  from p4 l0 have n1: "length new = 1" by simp
  then obtain r where r: "new = [r]" by (cases new) auto
  from p3 r have dr: "detectedAt r = ex_now" by (simp add: ex_env_def)
  from p5 hh len n1 r have "length (updates h') = 100 \<and> updates h' = r # butlast (updates ex_full_history)"
    by simp
  with h0 len p2 dr show ?thesis by blast
qed


end
